theory Spec2Isabelle
  imports Complex_Main "HOL-Library.Word"
begin

section \<open>Treadmill controller: wire codec, controller methods, workout scheduler\<close>

text \<open>
  A shallow embedding of \<^verbatim>\<open>src/treadmill/controller.py\<close> (class
  \<^verbatim>\<open>TreadmillController\<close>, the version with the telemetry queue and
  \<^verbatim>\<open>start_workout\<close>).

  \<^item> A byte of a \<^verbatim>\<open>bytearray\<close> is an 8-bit word; Python's unbounded
    \<^verbatim>\<open>int\<close> is \<open>int\<close>.
  \<^item> A finite \<^verbatim>\<open>Decimal\<close> speed is the rational number it denotes. The product
    \<^verbatim>\<open>speed * 100\<close> is exact in Python's default context as long as it has at
    most 28 significant digits, which is the situation modelled here.
  \<^item> \<^verbatim>\<open>int / 100\<close> in the notification handler is Python's true division;
    the model keeps the exact quotient (the float Python returns is the double closest
    to it).
  \<^item> An exception is a value: \<open>Raised e\<close> beside the state reached when it was raised.
\<close>

subsection \<open>Constants\<close>

type_synonym byte = "8 word"

type_synonym decimal = rat

definition SPEED_OP_CODE :: byte where
  "SPEED_OP_CODE = 0x02"

definition START_OP_CODE :: byte where
  "START_OP_CODE = 0x07"

definition STOP_PAUSE_OP_CODE :: byte where
  "STOP_PAUSE_OP_CODE = 0x08"

definition STOP_HEX :: byte where
  "STOP_HEX = 0x01"

definition PAUSE_HEX :: byte where
  "PAUSE_HEX = 0x02"

subsection \<open>The Python primitives the class uses\<close>

datatype py_error = OverflowError | TransportError

datatype outcome = Returned | Raised py_error

text \<open>\<^verbatim>\<open>int(d)\<close> on a finite \<^verbatim>\<open>Decimal\<close> truncates towards zero.\<close>

definition py_int :: "decimal \<Rightarrow> int" where
  "py_int x = (if 0 \<le> x then \<lfloor>x\<rfloor> else \<lceil>x\<rceil>)"

text \<open>The \<open>k\<close> low base-256 digits of \<open>n\<close>, least significant first.\<close>

fun little_endian :: "nat \<Rightarrow> int \<Rightarrow> byte list" where
  "little_endian 0 n = []"
| "little_endian (Suc k) n = word_of_int (n mod 256) # little_endian k (n div 256)"

text \<open>
  \<^verbatim>\<open>n.to_bytes(length, byteorder="little")\<close> (unsigned): OverflowError for a
  negative \<open>n\<close> and for an \<open>n\<close> that does not fit \<open>length\<close> bytes.
\<close>

definition to_bytes :: "int \<Rightarrow> nat \<Rightarrow> py_error + byte list" where
  "to_bytes n len =
     (if n < 0 then Inl OverflowError
      else if 256 ^ len \<le> n then Inl OverflowError
      else Inr (little_endian len n))"

text \<open>\<^verbatim>\<open>int.from_bytes(bs, "little")\<close> (unsigned); the empty sequence reads as 0.\<close>

fun from_bytes :: "byte list \<Rightarrow> int" where
  "from_bytes [] = 0"
| "from_bytes (b # bs) = uint b + 256 * from_bytes bs"

text \<open>
  \<^verbatim>\<open>data[i:j]\<close> for \<open>0 \<le> i \<le> j\<close>: a slice never raises; bounds beyond the
  end of the sequence are clamped to it.
\<close>

definition py_slice :: "'a list \<Rightarrow> nat \<Rightarrow> nat \<Rightarrow> 'a list" where
  "py_slice xs i j = take (j - i) (drop i xs)"

subsection \<open>Command bytes\<close>

text \<open>
  The class has no separate encoder: \<^verbatim>\<open>start\<close>, \<^verbatim>\<open>_pause\<close>,
  \<^verbatim>\<open>stop\<close> and \<^verbatim>\<open>set_speed\<close> each build their \<^verbatim>\<open>command\<close> bytes
  and hand them to \<^verbatim>\<open>_write_command\<close>. The four byte constructions are defined
  here once; the methods below use them, and \<open>encode\<close> collects them under one name.
\<close>

definition start_command :: "byte list" where
  "start_command = [START_OP_CODE]"

definition pause_command :: "byte list" where
  "pause_command = [STOP_PAUSE_OP_CODE, PAUSE_HEX]"

definition stop_command :: "byte list" where
  "stop_command = [STOP_PAUSE_OP_CODE, STOP_HEX]"

definition speed_command :: "decimal \<Rightarrow> py_error + byte list" where
  "speed_command speed_meters_per_sec =
     (let target_speed = py_int (speed_meters_per_sec * 100) in
      case to_bytes target_speed 2 of
        Inl e \<Rightarrow> Inl e
      | Inr speed_bytes \<Rightarrow> Inr ([SPEED_OP_CODE] @ speed_bytes))"

datatype command = Start | Pause | Stop | SetSpeed decimal

fun encode :: "command \<Rightarrow> py_error + byte list" where
  "encode Start = Inr start_command"
| "encode Pause = Inr pause_command"
| "encode Stop = Inr stop_command"
| "encode (SetSpeed v) = speed_command v"

subsection \<open>Telemetry\<close>

text \<open>The dict \<^verbatim>\<open>metrics\<close> with the keys speed, distance, calories and time.\<close>

record metrics =
  speed :: rat
  distance :: int
  calories :: int
  time :: int

text \<open>The dict \<^verbatim>\<open>_notification_handler\<close> builds from a notification's payload.\<close>

definition decode :: "byte list \<Rightarrow> metrics" where
  "decode data =
     \<lparr> speed = of_int (from_bytes (py_slice data 2 4)) / 100,
       distance = from_bytes (py_slice data 4 11),
       calories = from_bytes (py_slice data 11 13),
       time = from_bytes (py_slice data 17 19) \<rparr>"

subsection \<open>The controller and its surroundings\<close>

text \<open>
  What can be observed of a run: the calls made to the client's
  \<^verbatim>\<open>write_gatt_char\<close> and to \<^verbatim>\<open>asyncio.sleep\<close>, each stamped with the
  time at which it began, and the lines printed.
\<close>

datatype event = Write "byte list" | Sleep int

datatype line = Failed_to_write "byte list" | Subscribed_to_notifications

text \<open>
  The fields of the object that change (\<^verbatim>\<open>stop_event\<close>,
  \<^verbatim>\<open>telemetry_queue\<close>), whether the handler is registered with the client, and
  the observations: \<open>trace\<close>, \<open>console\<close>, the number \<open>tick\<close> of awaits passed and the
  seconds \<open>clock\<close> spent sleeping.
\<close>

record controller =
  stop_event :: bool
  telemetry_queue :: "metrics list"
  subscribed :: bool
  trace :: "(int \<times> event) list"
  console :: "line list"
  tick :: nat
  clock :: int

text \<open>A call of one of the object's methods other than \<^verbatim>\<open>start_workout\<close>.\<close>

datatype call = Issue command | Notification "byte list" | Subscribe

text \<open>
  What the code does not decide: whether the client's write at await number \<open>k\<close>
  raises, whether \<^verbatim>\<open>start_notify\<close> raises, and which methods other tasks of the
  event loop call while the workout is suspended at its await number \<open>k\<close>.
\<close>

record env =
  write_raises :: "nat \<Rightarrow> bool"
  start_notify_raises :: bool
  others :: "nat \<Rightarrow> call list"

text \<open>\<^verbatim>\<open>__init__\<close>: a fresh \<^verbatim>\<open>asyncio.Event\<close> is not set.\<close>

definition init :: "metrics list \<Rightarrow> controller" where
  "init telemetry_queue' =
     \<lparr> stop_event = False, telemetry_queue = telemetry_queue', subscribed = False,
       trace = [], console = [], tick = 0, clock = 0 \<rparr>"

text \<open>
  \<^verbatim>\<open>_write_command\<close>: the write is attempted; any exception of the client is
  caught and a line is printed. Nothing is raised, nothing else changes.
\<close>

definition write_command :: "env \<Rightarrow> controller \<Rightarrow> byte list \<Rightarrow> controller" where
  "write_command e s command =
     (let s1 = s\<lparr>trace := trace s @ [(clock s, Write command)], tick := Suc (tick s)\<rparr> in
      if write_raises e (tick s)
      then s1\<lparr>console := console s1 @ [Failed_to_write command]\<rparr>
      else s1)"

definition start :: "env \<Rightarrow> controller \<Rightarrow> controller" where
  "start e s = write_command e (s\<lparr>stop_event := False\<rparr>) start_command"

text \<open>\<^verbatim>\<open>_pause\<close>.\<close>

definition pause :: "env \<Rightarrow> controller \<Rightarrow> controller" where
  "pause e s = write_command e (s\<lparr>stop_event := True\<rparr>) pause_command"

definition stop :: "env \<Rightarrow> controller \<Rightarrow> controller" where
  "stop e s = write_command e (s\<lparr>stop_event := True\<rparr>) stop_command"

text \<open>
  \<^verbatim>\<open>set_speed\<close>: \<^verbatim>\<open>to_bytes\<close> may raise, and does so before
  \<^verbatim>\<open>_write_command\<close> is reached.
\<close>

definition set_speed :: "env \<Rightarrow> controller \<Rightarrow> decimal \<Rightarrow> outcome \<times> controller" where
  "set_speed e s speed_meters_per_sec =
     (case speed_command speed_meters_per_sec of
        Inl err \<Rightarrow> (Raised err, s)
      | Inr command \<Rightarrow> (Returned, write_command e s command))"

text \<open>\<^verbatim>\<open>_notification_handler\<close>: the queue is unbounded, \<^verbatim>\<open>put\<close> appends.\<close>

definition notification_handler :: "controller \<Rightarrow> byte list \<Rightarrow> outcome \<times> controller" where
  "notification_handler s data =
     (Returned, s\<lparr>telemetry_queue := telemetry_queue s @ [decode data]\<rparr>)"

definition subscribe :: "env \<Rightarrow> controller \<Rightarrow> outcome \<times> controller" where
  "subscribe e s =
     (if start_notify_raises e then (Raised TransportError, s)
      else (Returned, s\<lparr>subscribed := True,
                         console := console s @ [Subscribed_to_notifications]\<rparr>))"

fun issue :: "env \<Rightarrow> controller \<Rightarrow> command \<Rightarrow> outcome \<times> controller" where
  "issue e s Start = (Returned, start e s)"
| "issue e s Pause = (Returned, pause e s)"
| "issue e s Stop = (Returned, stop e s)"
| "issue e s (SetSpeed v) = set_speed e s v"

fun run_call :: "env \<Rightarrow> controller \<Rightarrow> call \<Rightarrow> outcome \<times> controller" where
  "run_call e s (Issue c) = issue e s c"
| "run_call e s (Notification data) = notification_handler s data"
| "run_call e s Subscribe = subscribe e s"

subsection \<open>The workout\<close>

text \<open>
  asyncio runs one task at a time and switches only at an \<^verbatim>\<open>await\<close>. While the
  workout is suspended at its await number \<open>k\<close>, the other tasks make the calls
  \<open>others e k\<close>, one after the other; an exception of such a call stays in its task.
\<close>

definition suspended :: "env \<Rightarrow> nat \<Rightarrow> controller \<Rightarrow> controller" where
  "suspended e k s = foldl (\<lambda>s' c. snd (run_call e s' c)) s (others e k)"

text \<open>
  \<^verbatim>\<open>await asyncio.sleep(d)\<close>: one suspension for the whole delay (none of it for
  \<open>d \<le> 0\<close>), during which the other tasks run. Their calls are placed at the
  beginning of the delay and carry its time; the sleeping task takes no notice of them.
\<close>

definition sleep :: "env \<Rightarrow> controller \<Rightarrow> int \<Rightarrow> controller" where
  "sleep e s d =
     (let s1 = s\<lparr>trace := trace s @ [(clock s, Sleep d)], tick := Suc (tick s)\<rparr>;
          s2 = suspended e (tick s) s1
      in s2\<lparr>clock := clock s2 + max 0 d\<rparr>)"

text \<open>The \<^verbatim>\<open>for\<close> loop of \<^verbatim>\<open>start_workout\<close>, with its \<^verbatim>\<open>break\<close>.\<close>

fun workout_loop :: "env \<Rightarrow> controller \<Rightarrow> (decimal \<times> int) list \<Rightarrow> outcome \<times> controller" where
  "workout_loop e s [] = (Returned, s)"
| "workout_loop e s ((speed_ms, duration_s) # intervals) =
     (if stop_event s then (Returned, s)
      else case set_speed e s speed_ms of
             (Raised err, s1) \<Rightarrow> (Raised err, s1)
           | (Returned, s1) \<Rightarrow>
               workout_loop e (sleep e (suspended e (tick s) s1) duration_s) intervals)"

definition start_workout ::
  "env \<Rightarrow> controller \<Rightarrow> (decimal \<times> int) list \<Rightarrow> outcome \<times> controller" where
  "start_workout e s intervals =
     (let s1 = suspended e (tick s) (start e s);
          s2 = sleep e s1 5
      in case workout_loop e s2 intervals of
           (Raised err, s3) \<Rightarrow> (Raised err, s3)
         | (Returned, s3) \<Rightarrow> (Returned, suspended e (tick s3) (pause e s3)))"

subsection \<open>The sequence the specification gives for a workout\<close>

text \<open>
  The specification's reading of a workout, in its own words: send Start, wait 5 seconds,
  then for each interval send SetSpeed and wait the interval's duration, and finally
  send Pause. \<open>spec_sequence\<close> follows the specification, not the code; \<open>performs\<close>
  gives the event of the trace that carries out a step (none when the command has no
  wire bytes).
\<close>

datatype step = Send command | Wait int

definition spec_sequence :: "(decimal \<times> int) list \<Rightarrow> step list" where
  "spec_sequence intervals =
     [Send Start, Wait 5] @
     concat (map (\<lambda>(v, d). [Send (SetSpeed v), Wait d]) intervals) @
     [Send Pause]"

fun performs :: "step \<Rightarrow> event option" where
  "performs (Send c) = (case encode c of Inl err \<Rightarrow> None | Inr bs \<Rightarrow> Some (Write bs))"
| "performs (Wait d) = Some (Sleep d)"

subsection \<open>Auxiliary notions for the statements\<close>

text \<open>A call that writes a command, as opposed to telemetry traffic.\<close>

fun is_issue :: "call \<Rightarrow> bool" where
  "is_issue (Issue c) = True"
| "is_issue (Notification data) = False"
| "is_issue Subscribe = False"

text \<open>The state without what was printed, and the surroundings in which no write fails.\<close>

definition no_console :: "controller \<Rightarrow> controller" where
  "no_console s = s\<lparr>console := []\<rparr>"

definition acknowledging :: "env \<Rightarrow> env" where
  "acknowledging e = e\<lparr>write_raises := (\<lambda>k. False)\<rparr>"

section \<open>Properties\<close>

subsection \<open>Bytes and integers\<close>


lemma to_bytes_2:
  "0 \<le> n \<Longrightarrow> n \<le> 65535 \<Longrightarrow>
   to_bytes n 2 = Inr [word_of_int (n mod 256), word_of_int (n div 256)]"
  by (simp add: to_bytes_def numeral_2_eq_2)

lemma to_bytes_raises: "n < 0 \<or> 65535 < n \<Longrightarrow> to_bytes n 2 = Inl OverflowError"
  by (auto simp add: to_bytes_def)

lemma speed_command_in_range:
  "0 \<le> py_int (v * 100) \<Longrightarrow> py_int (v * 100) \<le> 65535 \<Longrightarrow>
   speed_command v =
     Inr [0x02, word_of_int (py_int (v * 100) mod 256), word_of_int (py_int (v * 100) div 256)]"
  by (simp add: speed_command_def to_bytes_2 SPEED_OP_CODE_def)

lemma speed_command_raises:
  "py_int (v * 100) < 0 \<or> 65535 < py_int (v * 100) \<Longrightarrow> speed_command v = Inl OverflowError"
  by (simp add: speed_command_def to_bytes_raises)



lemma slice_nth: "j \<le> length xs \<Longrightarrow> py_slice xs i j = map ((!) xs) [i..<j]"
  by (auto simp add: py_slice_def list_eq_iff_nth_eq)

lemma upt_2_4: "[2..<4] = [2, 3::nat]"
  and upt_4_11: "[4..<11] = [4, 5, 6, 7, 8, 9, 10::nat]"
  and upt_11_13: "[11..<13] = [11, 12::nat]"
  and upt_17_19: "[17..<19] = [17, 18::nat]"
  by code_simp+

lemma sum_lessThan_7: "(\<Sum>i<7. f (i::nat)) = f 0 + f 1 + f 2 + f 3 + f 4 + f 5 + (f 6 :: int)"
  by (simp add: eval_nat_numeral lessThan_Suc)

lemma from_bytes_append_zeros: "from_bytes (bs @ replicate m 0) = from_bytes bs"
  by (induction bs) (simp_all, induction m, simp_all)

lemma slice_append_zeros:
  "\<exists>m. py_slice (xs @ replicate k (0::byte)) i j = py_slice xs i j @ replicate m 0"
proof -
  have "py_slice (xs @ replicate k (0::byte)) i j =
      py_slice xs i j @ replicate (min (j - i - (length xs - i)) (k - (i - length xs))) 0"
    by (simp add: py_slice_def)
  then show ?thesis by blast
qed

lemma from_bytes_slice_padded:
  "from_bytes (py_slice (xs @ replicate k 0) i j) = from_bytes (py_slice xs i j)"
proof -
  obtain m where "py_slice (xs @ replicate k (0::byte)) i j = py_slice xs i j @ replicate m 0"
    using slice_append_zeros by blast
  then show ?thesis by (simp add: from_bytes_append_zeros)
qed

lemma decode_padded: "decode (data @ replicate k 0) = decode data"
  by (simp add: decode_def from_bytes_slice_padded)

subsection \<open>Command bytes\<close>




subsection \<open>Telemetry frames\<close>

text \<open>
  C2. A frame of at least 19 bytes is decoded into little-endian unsigned fields at
  fixed offsets: speed from bytes 2 and 3, divided by 100; distance from bytes 4 to 10;
  calories from bytes 11 and 12; time from bytes 17 and 18. The frame of the
  specification's example decodes to speed 3.00, distance 10, calories 5, time 60,
  whatever its bytes 0, 1 and 13 to 16 are.
\<close>

theorem decode_fields:
  "(19 \<le> length data \<longrightarrow>
      decode data =
        \<lparr> speed = of_int (uint (data ! 2) + 256 * uint (data ! 3)) / 100,
          distance = (\<Sum>i<7. uint (data ! (4 + i)) * 256 ^ i),
          calories = uint (data ! 11) + 256 * uint (data ! 12),
          time = uint (data ! 17) + 256 * uint (data ! 18) \<rparr>) \<and>
   decode [x0, x1, 0x2C, 0x01, 0x0A, 0, 0, 0, 0, 0, 0, 0x05, 0x00, x13, x14, x15, x16, 0x3C, 0x00]
     = \<lparr> speed = 3, distance = 10, calories = 5, time = 60 \<rparr>"
proof -
  have general: "decode data =
        \<lparr> speed = of_int (uint (data ! 2) + 256 * uint (data ! 3)) / 100,
          distance = (\<Sum>i<7. uint (data ! (4 + i)) * 256 ^ i),
          calories = uint (data ! 11) + 256 * uint (data ! 12),
          time = uint (data ! 17) + 256 * uint (data ! 18) \<rparr>" if len: "19 \<le> length data"
  proof -
    have "py_slice data 2 4 = [data ! 2, data ! 3]"
      using len by (simp add: slice_nth upt_2_4)
    moreover have "py_slice data 4 11 =
        [data ! 4, data ! 5, data ! 6, data ! 7, data ! 8, data ! 9, data ! 10]"
      using len by (simp add: slice_nth upt_4_11)
    moreover have "py_slice data 11 13 = [data ! 11, data ! 12]"
      using len by (simp add: slice_nth upt_11_13)
    moreover have "py_slice data 17 19 = [data ! 17, data ! 18]"
      using len by (simp add: slice_nth upt_17_19)
    ultimately show ?thesis
      by (simp add: decode_def sum_lessThan_7)
  qed
  have "decode [x0, x1, 0x2C, 0x01, 0x0A, 0, 0, 0, 0, 0, 0, 0x05, 0x00, x13, x14, x15, x16, 0x3C, 0x00]
     = \<lparr> speed = 3, distance = 10, calories = 5, time = 60 \<rparr>"
    by (simp add: decode_def py_slice_def)
  with general show ?thesis by blast
qed

text \<open>A frame of nineteen bytes 01.\<close>

theorem decode_fields_witness:
  "19 \<le> length (replicate 19 (1::byte)) \<and>
   decode (replicate 19 1) =
     \<lparr> speed = 257 / 100, distance = 282578800148737, calories = 257, time = 257 \<rparr>"
  using decode_fields [of "replicate 19 1"] by (simp add: sum_lessThan_7)

text \<open>
  C3 (amended). Decoding never fails, whatever the length of the frame: the handler
  returns normally and appends the decoded sample to the queue. A frame shorter than 19
  bytes is decoded as the same frame padded with zero bytes to 19 bytes (the slices are
  cut at the end of the data), so the empty frame gives four zeros. The registration of
  the handler is not touched.
\<close>

theorem short_frame_is_decoded:
  "notification_handler s data =
     (Returned, s\<lparr>telemetry_queue := telemetry_queue s @ [decode data]\<rparr>) \<and>
   decode data = decode (data @ replicate (19 - length data) 0) \<and>
   subscribed (snd (notification_handler s data)) = subscribed s \<and>
   decode [] = \<lparr> speed = 0, distance = 0, calories = 0, time = 0 \<rparr>"
  by (simp add: notification_handler_def decode_padded) (simp add: decode_def py_slice_def)

text \<open>
  C3 as stated asks for a failure and a dropped notification. For the empty frame and
  for a frame of 18 bytes FF the handler returns normally and a sample is in the queue.
\<close>

theorem short_frame_counterexample:
  "length ([] :: byte list) < 19 \<and>
   fst (notification_handler (init []) []) = Returned \<and>
   telemetry_queue (snd (notification_handler (init []) [])) =
     [\<lparr> speed = 0, distance = 0, calories = 0, time = 0 \<rparr>] \<and>
   length (replicate 18 (255 :: byte)) < 19 \<and>
   fst (notification_handler (init []) (replicate 18 255)) = Returned \<and>
   telemetry_queue (snd (notification_handler (init []) (replicate 18 255))) =
     [\<lparr> speed = 65535 / 100, distance = 72057594037927935, calories = 65535, time = 255 \<rparr>]"
  by code_simp



subsection \<open>Speeds out of range\<close>

text \<open>
  C10. When \<open>int(speed * 100)\<close> is negative or larger than 65535, \<open>set_speed\<close> raises
  OverflowError in the byte conversion and the state is the one it was called in: nothing
  was written, the cancellation flag is as before. There are no bytes for such a speed,
  neither wrapped nor clamped.
\<close>

theorem set_speed_out_of_range:
  "py_int (v * 100) < 0 \<or> 65535 < py_int (v * 100) \<Longrightarrow>
   set_speed e s v = (Raised OverflowError, s) \<and> encode (SetSpeed v) = Inl OverflowError"
  by (simp add: set_speed_def speed_command_raises)

text \<open>The speeds 655.36 and -0.01, in a fresh controller.\<close>

theorem set_speed_out_of_range_witness:
  "65535 < py_int (65536 / 100 * 100) \<and>
   set_speed \<lparr>write_raises = (\<lambda>k. False), start_notify_raises = False, others = (\<lambda>k. [])\<rparr>
     (init []) (65536 / 100) = (Raised OverflowError, init []) \<and>
   py_int (- 1 / 100 * 100) < 0 \<and>
   set_speed \<lparr>write_raises = (\<lambda>k. False), start_notify_raises = False, others = (\<lambda>k. [])\<rparr>
     (init []) (- 1 / 100) = (Raised OverflowError, init [])"
  using
    set_speed_out_of_range [of "65536 / 100"
      "\<lparr>write_raises = (\<lambda>k. False), start_notify_raises = False, others = (\<lambda>k. [])\<rparr>" "init []"]
    set_speed_out_of_range [of "- 1 / 100"
      "\<lparr>write_raises = (\<lambda>k. False), start_notify_raises = False, others = (\<lambda>k. [])\<rparr>" "init []"]
  by (simp add: py_int_def)

subsection \<open>The workout: what the other tasks leave alone\<close>

lemma write_command_fields:
  "stop_event (write_command e s c) = stop_event s"
  "trace (write_command e s c) = trace s @ [(clock s, Write c)]"
  "tick (write_command e s c) = Suc (tick s)"
  "clock (write_command e s c) = clock s"
  "telemetry_queue (write_command e s c) = telemetry_queue s"
  by (simp_all add: write_command_def Let_def)

lemma quiet_call:
  assumes "\<not> is_issue c"
  shows "stop_event (snd (run_call e s c)) = stop_event s"
    and "trace (snd (run_call e s c)) = trace s"
    and "tick (snd (run_call e s c)) = tick s"
    and "clock (snd (run_call e s c)) = clock s"
  using assms by (cases c; simp add: notification_handler_def subscribe_def)+

lemma quiet_calls:
  assumes "\<forall>c\<in>set cs. \<not> is_issue c"
  shows "stop_event (foldl (\<lambda>s' c. snd (run_call e s' c)) s cs) = stop_event s \<and>
         trace (foldl (\<lambda>s' c. snd (run_call e s' c)) s cs) = trace s \<and>
         tick (foldl (\<lambda>s' c. snd (run_call e s' c)) s cs) = tick s \<and>
         clock (foldl (\<lambda>s' c. snd (run_call e s' c)) s cs) = clock s"
  using assms by (induction cs arbitrary: s) (simp_all add: quiet_call)

lemma quiet_suspended:
  assumes "\<forall>k. \<forall>c\<in>set (others e k). \<not> is_issue c"
  shows "stop_event (suspended e k s) = stop_event s"
    and "trace (suspended e k s) = trace s"
    and "tick (suspended e k s) = tick s"
    and "clock (suspended e k s) = clock s"
  using assms quiet_calls [of "others e k" e s] by (simp_all add: suspended_def)

lemma quiet_sleep:
  assumes "\<forall>k. \<forall>c\<in>set (others e k). \<not> is_issue c"
  shows "stop_event (sleep e s d) = stop_event s"
    and "trace (sleep e s d) = trace s @ [(clock s, Sleep d)]"
    and "tick (sleep e s d) = Suc (tick s)"
    and "clock (sleep e s d) = clock s + max 0 d"
  using assms by (simp_all add: sleep_def Let_def quiet_suspended)

lemma workout_loop_stopped: "stop_event s \<Longrightarrow> workout_loop e s intervals = (Returned, s)"
  by (cases intervals) auto

lemma workout_loop_started:
  assumes "\<not> stop_event s" "0 \<le> py_int (v * 100)" "py_int (v * 100) \<le> 65535"
  shows "workout_loop e s ((v, d) # rest) =
     workout_loop e
       (sleep e (suspended e (tick s)
          (write_command e s (SPEED_OP_CODE # little_endian 2 (py_int (v * 100))))) d) rest"
  using assms by (simp add: set_speed_def speed_command_def to_bytes_def)

lemma performs_set_speed:
  assumes "0 \<le> py_int (v * 100)" "py_int (v * 100) \<le> 65535"
  shows "performs (Send (SetSpeed v)) =
     Some (Write (SPEED_OP_CODE # little_endian 2 (py_int (v * 100))))"
  using assms by (simp add: speed_command_def to_bytes_def)

lemma quiet_workout_loop:
  assumes quiet: "\<forall>k. \<forall>c\<in>set (others e k). \<not> is_issue c"
    and range: "\<forall>(v, d)\<in>set intervals. 0 \<le> py_int (v * 100) \<and> py_int (v * 100) \<le> 65535"
    and go: "\<not> stop_event s"
  shows "fst (workout_loop e s intervals) = Returned \<and>
     \<not> stop_event (snd (workout_loop e s intervals)) \<and>
     map (\<lambda>p. Some (snd p)) (trace (snd (workout_loop e s intervals))) =
       map (\<lambda>p. Some (snd p)) (trace s) @
       map performs (concat (map (\<lambda>(v, d). [Send (SetSpeed v), Wait d]) intervals))"
  using range go
proof (induction intervals arbitrary: s)
  case Nil
  then show ?case by simp
next
  case (Cons iv intervals)
  obtain v d where iv: "iv = (v, d)" by (cases iv)
  from Cons.prems iv have v: "0 \<le> py_int (v * 100)" "py_int (v * 100) \<le> 65535"
    by auto
  let ?cmd = "SPEED_OP_CODE # little_endian 2 (py_int (v * 100))"
  let ?s' = "sleep e (suspended e (tick s) (write_command e s ?cmd)) d"
  have step: "workout_loop e s (iv # intervals) = workout_loop e ?s' intervals"
    unfolding iv using Cons.prems(2) v by (rule workout_loop_started)
  have go': "\<not> stop_event ?s'"
    using Cons.prems(2) by (simp add: quiet_sleep [OF quiet] quiet_suspended [OF quiet] write_command_fields)
  have tr: "map (\<lambda>p. Some (snd p)) (trace ?s') =
      map (\<lambda>p. Some (snd p)) (trace s) @ [performs (Send (SetSpeed v)), performs (Wait d)]"
    by (simp del: performs.simps
        add: quiet_sleep [OF quiet] quiet_suspended [OF quiet] write_command_fields
          performs_set_speed [OF v] performs.simps(2))
  from Cons.prems(1) have "\<forall>(v, d)\<in>set intervals. 0 \<le> py_int (v * 100) \<and> py_int (v * 100) \<le> 65535"
    by simp
  from Cons.IH [OF this go']
  have IH: "fst (workout_loop e ?s' intervals) = Returned"
    "\<not> stop_event (snd (workout_loop e ?s' intervals))"
    "map (\<lambda>p. Some (snd p)) (trace (snd (workout_loop e ?s' intervals))) =
       map (\<lambda>p. Some (snd p)) (trace ?s') @
       map performs (concat (map (\<lambda>(v, d). [Send (SetSpeed v), Wait d]) intervals))"
    by blast+
  have "map (\<lambda>p. Some (snd p)) (trace (snd (workout_loop e s (iv # intervals)))) =
      (map (\<lambda>p. Some (snd p)) (trace s) @ [performs (Send (SetSpeed v)), performs (Wait d)]) @
      map performs (concat (map (\<lambda>(v, d). [Send (SetSpeed v), Wait d]) intervals))"
    by (simp only: step IH(3) tr)
  also have "\<dots> = map (\<lambda>p. Some (snd p)) (trace s) @
      map performs (concat (map (\<lambda>(v, d). [Send (SetSpeed v), Wait d]) (iv # intervals)))"
    by (simp del: performs.simps add: iv)
  finally show ?case
    using IH(1,2) by (simp only: step simp_thms)
qed

subsection \<open>The workout without cancellation\<close>

text \<open>
  C4 (amended). When, during the workout, the other tasks call no command method (they
  may deliver notifications), and every interval's speed has its scaled value
  \<open>int(speed * 100)\<close> in 0..65535, \<open>start_workout\<close> returns, and the events it adds
  to the trace are, in order, those of the specification's sequence: Start, a wait of 5
  seconds, then for each interval SetSpeed with its speed and a wait of its duration,
  and finally Pause. For the empty list the sequence is Start, the wait of 5 seconds,
  Pause. Whether the writes are acknowledged plays no role.
\<close>

theorem workout_sequence:
  "((\<forall>k. \<forall>c\<in>set (others e k). \<not> is_issue c) \<and>
    (\<forall>(v, d)\<in>set intervals. 0 \<le> py_int (v * 100) \<and> py_int (v * 100) \<le> 65535) \<longrightarrow>
      fst (start_workout e s intervals) = Returned \<and>
      map (\<lambda>p. Some (snd p)) (trace (snd (start_workout e s intervals))) =
        map (\<lambda>p. Some (snd p)) (trace s) @ map performs (spec_sequence intervals)) \<and>
   spec_sequence [] = [Send Start, Wait 5, Send Pause] \<and>
   map performs [Send Start, Wait 5, Send Pause] =
     [Some (Write [0x07]), Some (Sleep 5), Some (Write [0x08, 0x02])]"
proof -
  have run: "fst (start_workout e s intervals) = Returned \<and>
      map (\<lambda>p. Some (snd p)) (trace (snd (start_workout e s intervals))) =
        map (\<lambda>p. Some (snd p)) (trace s) @ map performs (spec_sequence intervals)"
    if quiet: "\<forall>k. \<forall>c\<in>set (others e k). \<not> is_issue c"
      and range: "\<forall>(v, d)\<in>set intervals. 0 \<le> py_int (v * 100) \<and> py_int (v * 100) \<le> 65535"
  proof -
    let ?s2 = "sleep e (suspended e (tick s) (start e s)) 5"
    let ?r = "workout_loop e ?s2 intervals"
    have go: "\<not> stop_event ?s2"
      by (simp add: quiet_sleep [OF quiet] quiet_suspended [OF quiet] start_def
          write_command_fields)
    have tr2: "map (\<lambda>p. Some (snd p)) (trace ?s2) =
        map (\<lambda>p. Some (snd p)) (trace s) @ [performs (Send Start), performs (Wait 5)]"
      by (simp add: quiet_sleep [OF quiet] quiet_suspended [OF quiet] start_def
          write_command_fields)
    from quiet_workout_loop [OF quiet range go]
    have loop: "fst ?r = Returned"
      "map (\<lambda>p. Some (snd p)) (trace (snd ?r)) =
         map (\<lambda>p. Some (snd p)) (trace ?s2) @
         map performs (concat (map (\<lambda>(v, d). [Send (SetSpeed v), Wait d]) intervals))"
      by blast+
    obtain s3 where r: "?r = (Returned, s3)"
      using loop(1) by (cases ?r) simp
    have sw: "start_workout e s intervals = (Returned, suspended e (tick s3) (pause e s3))"
      by (simp add: start_workout_def Let_def r)
    have "map (\<lambda>p. Some (snd p)) (trace (suspended e (tick s3) (pause e s3))) =
        map (\<lambda>p. Some (snd p)) (trace s3) @ [performs (Send Pause)]"
      by (simp add: quiet_suspended [OF quiet] pause_def write_command_fields)
    also have "map (\<lambda>p. Some (snd p)) (trace s3) =
        (map (\<lambda>p. Some (snd p)) (trace s) @ [performs (Send Start), performs (Wait 5)]) @
        map performs (concat (map (\<lambda>(v, d). [Send (SetSpeed v), Wait d]) intervals))"
      using loop(2) by (simp only: r snd_conv tr2)
    finally have "map (\<lambda>p. Some (snd p)) (trace (suspended e (tick s3) (pause e s3))) =
        map (\<lambda>p. Some (snd p)) (trace s) @ map performs (spec_sequence intervals)"
      by (simp del: performs.simps add: spec_sequence_def)
    then show ?thesis by (simp only: sw fst_conv snd_conv simp_thms)
  qed
  have "spec_sequence [] = [Send Start, Wait 5, Send Pause]"
    by (simp add: spec_sequence_def)
  moreover have "map performs [Send Start, Wait 5, Send Pause] =
     [Some (Write [0x07]), Some (Sleep 5), Some (Write [0x08, 0x02])]"
    by (simp add: start_command_def pause_command_def START_OP_CODE_def
        STOP_PAUSE_OP_CODE_def PAUSE_HEX_def)
  ultimately show ?thesis using run by blast
qed

text \<open>
  Two intervals, with a notification arriving during the warm-up and the first SetSpeed
  write failing.
\<close>

theorem workout_sequence_witness:
  "map (\<lambda>p. Some (snd p)) (trace (snd (start_workout
      \<lparr>write_raises = (\<lambda>k. k = 2), start_notify_raises = False,
        others = (\<lambda>k. if k = 1 then [Notification []] else [])\<rparr> (init []) [(2, 10), (3, 10)]))) =
     [Some (Write [0x07]), Some (Sleep 5), Some (Write [0x02, 0xC8, 0x00]), Some (Sleep 10),
      Some (Write [0x02, 0x2C, 0x01]), Some (Sleep 10), Some (Write [0x08, 0x02])]"
proof -
  let ?e = "\<lparr>write_raises = (\<lambda>k. k = 2), start_notify_raises = False,
        others = (\<lambda>k. if k = 1 then [Notification []] else [])\<rparr>"
  have quiet: "\<forall>k. \<forall>c\<in>set (others ?e k). \<not> is_issue c"
    by simp
  have range: "\<forall>(v, d)\<in>set [(2, 10), (3, 10)]. 0 \<le> py_int (v * 100) \<and> py_int (v * 100) \<le> 65535"
    by (simp add: py_int_def)
  have seq: "map performs (spec_sequence [(2, 10), (3, 10)]) =
      [Some (Write [0x07]), Some (Sleep 5), Some (Write [0x02, 0xC8, 0x00]), Some (Sleep 10),
       Some (Write [0x02, 0x2C, 0x01]), Some (Sleep 10), Some (Write [0x08, 0x02])]"
    by code_simp
  have start: "trace (init []) = []"
    by (simp add: init_def)
  from workout_sequence [of ?e "[(2, 10), (3, 10)]" "init []"] quiet range
  have "map (\<lambda>p. Some (snd p)) (trace (snd (start_workout ?e (init []) [(2, 10), (3, 10)]))) =
      map (\<lambda>p. Some (snd p)) (trace (init [])) @ map performs (spec_sequence [(2, 10), (3, 10)])"
    by blast
  then have "map (\<lambda>p. Some (snd p)) (trace (snd (start_workout ?e (init []) [(2, 10), (3, 10)]))) =
      [Some (Write [0x07]), Some (Sleep 5), Some (Write [0x02, 0xC8, 0x00]), Some (Sleep 10),
       Some (Write [0x02, 0x2C, 0x01]), Some (Sleep 10), Some (Write [0x08, 0x02])]"
    by (simp only: seq start list.map append_Nil)
  then show ?thesis .
qed

text \<open>
  C4 as stated holds for every interval list. With the interval (700, 10) the byte
  conversion raises: the workout ends with OverflowError after the warm-up, and Pause is
  never written.
\<close>

theorem workout_sequence_counterexample:
  "start_workout
     \<lparr>write_raises = (\<lambda>k. False), start_notify_raises = False, others = (\<lambda>k. [])\<rparr>
     (init []) [(700, 10)] =
   (Raised OverflowError,
    \<lparr>stop_event = False, telemetry_queue = [], subscribed = False,
      trace = [(0, Write [0x07]), (0, Sleep 5)], console = [], tick = 2, clock = 5\<rparr>)"
  by code_simp

subsection \<open>Cancellation at the loop boundary\<close>

lemma workout_loop_append:
  "workout_loop e s (pre @ rest) =
     (case workout_loop e s pre of
        (Raised err, s') \<Rightarrow> (Raised err, s')
      | (Returned, s') \<Rightarrow> workout_loop e s' rest)"
proof (induction pre arbitrary: s)
  case Nil
  then show ?case by simp
next
  case (Cons iv pre)
  obtain v d where iv: "iv = (v, d)" by (cases iv)
  show ?case
  proof (cases "stop_event s")
    case True
    then show ?thesis by (simp add: workout_loop_stopped)
  next
    case False
    show ?thesis
    proof (cases "set_speed e s v")
      case (Pair r s1)
      then show ?thesis
        using False Cons.IH by (cases r) (simp_all add: iv)
    qed
  qed
qed

text \<open>
  C5. Let the workout have started, warmed up and gone through the intervals \<open>pre\<close>,
  and let the cancellation flag be set in the state \<open>s3\<close> in which it comes to the
  check before the next interval \<open>iv\<close>. Then the loop ends there without a call and
  without a change of state, so neither \<open>iv\<close>'s SetSpeed nor a later one is written;
  all that \<open>start_workout\<close> still does is \<^verbatim>\<open>_pause\<close>, which writes Pause.
\<close>

theorem cancelled_at_boundary:
  "workout_loop e (sleep e (suspended e (tick s) (start e s)) 5) pre = (Returned, s3) \<and>
   stop_event s3 \<longrightarrow>
     workout_loop e s3 (iv # post) = (Returned, s3) \<and>
     start_workout e s (pre @ iv # post) = (Returned, suspended e (tick s3) (pause e s3)) \<and>
     trace (pause e s3) = trace s3 @ [(clock s3, Write [0x08, 0x02])]"
proof (intro impI, elim conjE)
  assume pre: "workout_loop e (sleep e (suspended e (tick s) (start e s)) 5) pre = (Returned, s3)"
    and flag: "stop_event s3"
  have rest: "workout_loop e s3 (iv # post) = (Returned, s3)"
    using flag by (rule workout_loop_stopped)
  have "workout_loop e (sleep e (suspended e (tick s) (start e s)) 5) (pre @ iv # post) =
      (Returned, s3)"
    by (simp add: workout_loop_append pre rest)
  then have "start_workout e s (pre @ iv # post) = (Returned, suspended e (tick s3) (pause e s3))"
    by (simp add: start_workout_def Let_def)
  moreover have "trace (pause e s3) = trace s3 @ [(clock s3, Write [0x08, 0x02])]"
    by (simp add: pause_def write_command_fields pause_command_def STOP_PAUSE_OP_CODE_def
        PAUSE_HEX_def)
  ultimately show "workout_loop e s3 (iv # post) = (Returned, s3) \<and>
     start_workout e s (pre @ iv # post) = (Returned, suspended e (tick s3) (pause e s3)) \<and>
     trace (pause e s3) = trace s3 @ [(clock s3, Write [0x08, 0x02])]"
    using rest by blast
qed

text \<open>
  The specification's scenario: stop is called during the wait of the first of two
  intervals. The second SetSpeed is not written, Pause is.
\<close>

theorem cancelled_at_boundary_witness:
  "workout_loop
     \<lparr>write_raises = (\<lambda>k. False), start_notify_raises = False,
       others = (\<lambda>k. if k = 3 then [Issue Stop] else [])\<rparr>
     (sleep \<lparr>write_raises = (\<lambda>k. False), start_notify_raises = False,
              others = (\<lambda>k. if k = 3 then [Issue Stop] else [])\<rparr>
        (suspended \<lparr>write_raises = (\<lambda>k. False), start_notify_raises = False,
                     others = (\<lambda>k. if k = 3 then [Issue Stop] else [])\<rparr>
           (tick (init []))
           (start \<lparr>write_raises = (\<lambda>k. False), start_notify_raises = False,
                    others = (\<lambda>k. if k = 3 then [Issue Stop] else [])\<rparr> (init []))) 5)
     [(2, 10)] =
   (Returned,
    \<lparr>stop_event = True, telemetry_queue = [], subscribed = False,
      trace = [(0, Write [0x07]), (0, Sleep 5), (5, Write [0x02, 0xC8, 0x00]), (5, Sleep 10),
               (5, Write [0x08, 0x01])],
      console = [], tick = 5, clock = 15\<rparr>) \<and>
   start_workout
     \<lparr>write_raises = (\<lambda>k. False), start_notify_raises = False,
       others = (\<lambda>k. if k = 3 then [Issue Stop] else [])\<rparr>
     (init []) [(2, 10), (3, 10)] =
   (Returned,
    \<lparr>stop_event = True, telemetry_queue = [], subscribed = False,
      trace = [(0, Write [0x07]), (0, Sleep 5), (5, Write [0x02, 0xC8, 0x00]), (5, Sleep 10),
               (5, Write [0x08, 0x01]), (15, Write [0x08, 0x02])],
      console = [], tick = 6, clock = 15\<rparr>)"
proof -
  let ?e = "\<lparr>write_raises = (\<lambda>k. False), start_notify_raises = False,
       others = (\<lambda>k. if k = 3 then [Issue Stop] else [])\<rparr>"
  let ?s3 = "\<lparr>stop_event = True, telemetry_queue = [], subscribed = False,
      trace = [(0, Write [0x07]), (0, Sleep 5), (5, Write [0x02, 0xC8, 0x00]), (5, Sleep 10),
               (5, Write [0x08, 0x01])],
      console = [], tick = 5, clock = 15\<rparr>"
  have reach: "workout_loop ?e (sleep ?e (suspended ?e (tick (init [])) (start ?e (init []))) 5)
      [(2, 10)] = (Returned, ?s3)"
    by code_simp
  have flag: "stop_event ?s3"
    by simp
  have after: "suspended ?e (tick ?s3) (pause ?e ?s3) =
      \<lparr>stop_event = True, telemetry_queue = [], subscribed = False,
      trace = [(0, Write [0x07]), (0, Sleep 5), (5, Write [0x02, 0xC8, 0x00]), (5, Sleep 10),
               (5, Write [0x08, 0x01]), (15, Write [0x08, 0x02])],
      console = [], tick = 6, clock = 15\<rparr>"
    by code_simp
  from cancelled_at_boundary [of ?e "init []" "[(2, 10)]" ?s3 "(3, 10)" "[]"] reach flag
  have "start_workout ?e (init []) ([(2, 10)] @ [(3, 10)]) =
      (Returned, suspended ?e (tick ?s3) (pause ?e ?s3))"
    by blast
  then have "start_workout ?e (init []) [(2, 10), (3, 10)] =
      (Returned, \<lparr>stop_event = True, telemetry_queue = [], subscribed = False,
      trace = [(0, Write [0x07]), (0, Sleep 5), (5, Write [0x02, 0xC8, 0x00]), (5, Sleep 10),
               (5, Write [0x08, 0x01]), (15, Write [0x08, 0x02])],
      console = [], tick = 6, clock = 15\<rparr>)"
    by (simp only: after append_Cons append_Nil)
  with reach show ?thesis by blast
qed

subsection \<open>The cancellation flag\<close>

lemma issue_flag:
  "stop_event (snd (issue e s c)) =
     (case c of Start \<Rightarrow> False | Pause \<Rightarrow> True | Stop \<Rightarrow> True | SetSpeed w \<Rightarrow> stop_event s)"
  by (cases c)
    (simp_all add: start_def pause_def stop_def set_speed_def write_command_fields
      split: sum.splits)

lemma run_call_flag:
  "stop_event (snd (run_call e s c)) =
     (case c of
        Issue cmd \<Rightarrow>
          (case cmd of Start \<Rightarrow> False | Pause \<Rightarrow> True | Stop \<Rightarrow> True
           | SetSpeed w \<Rightarrow> stop_event s)
      | Notification data \<Rightarrow> stop_event s
      | Subscribe \<Rightarrow> stop_event s)"
  by (cases c) (simp_all add: issue_flag notification_handler_def subscribe_def)

lemma set_flag_stays:
  "stop_event s \<Longrightarrow> c \<noteq> Issue Start \<Longrightarrow> stop_event (snd (run_call e s c))"
  by (simp add: run_call_flag split: call.splits command.splits)

lemma calls_keep_flag:
  "stop_event s \<Longrightarrow> Issue Start \<notin> set cs \<Longrightarrow>
   stop_event (foldl (\<lambda>s' c. snd (run_call e s' c)) s cs)"
proof (induction cs arbitrary: s)
  case Nil
  then show ?case by simp
next
  case (Cons c cs)
  from Cons.prems have "stop_event (snd (run_call e s c))"
    by (intro set_flag_stays) auto
  moreover from Cons.prems have "Issue Start \<notin> set cs" by simp
  ultimately show ?case using Cons.IH by simp
qed

lemma sleep_keeps_flag:
  assumes "stop_event s" "\<forall>k. Issue Start \<notin> set (others e k)"
  shows "stop_event (sleep e s d)"
  using assms by (simp add: sleep_def Let_def suspended_def calls_keep_flag)

lemma quiet_loop_flag:
  assumes quiet: "\<forall>k. \<forall>c\<in>set (others e k). \<not> is_issue c"
  shows "stop_event (snd (workout_loop e s intervals)) = stop_event s"
proof (induction intervals arbitrary: s)
  case Nil
  then show ?case by simp
next
  case (Cons iv intervals)
  obtain v d where iv: "iv = (v, d)" by (cases iv)
  show ?case
  proof (cases "speed_command v")
    case (Inl err)
    then show ?thesis by (simp add: iv set_speed_def)
  next
    case (Inr bs)
    then show ?thesis
      by (simp add: iv set_speed_def Cons.IH quiet_sleep [OF quiet] quiet_suspended [OF quiet]
          write_command_fields)
  qed
qed

text \<open>
  C6. A fresh controller has the flag unset. \<^verbatim>\<open>_pause\<close> and \<^verbatim>\<open>stop\<close> set
  it, \<^verbatim>\<open>start\<close> clears it; \<^verbatim>\<open>set_speed\<close>, the notification handler,
  \<^verbatim>\<open>subscribe\<close> and \<^verbatim>\<open>_write_command\<close> leave it as it is. So a call that
  finds the flag set and leaves it unset is a call of \<^verbatim>\<open>start\<close>. The workout's
  waits and its loop do not change the flag themselves: a set flag stays set through
  them unless another task calls \<^verbatim>\<open>start\<close>, and the flag is unchanged by them when
  the other tasks call no command method.
\<close>

theorem cancellation_flag:
  "\<not> stop_event (init q) \<and>
   stop_event (pause e s) \<and> stop_event (stop e s) \<and> \<not> stop_event (start e s) \<and>
   stop_event (snd (set_speed e s v)) = stop_event s \<and>
   stop_event (snd (notification_handler s data)) = stop_event s \<and>
   stop_event (snd (subscribe e s)) = stop_event s \<and>
   stop_event (write_command e s cmd) = stop_event s \<and>
   (stop_event s \<and> \<not> stop_event (snd (run_call e s c)) \<longrightarrow> c = Issue Start) \<and>
   (stop_event s \<and> (\<forall>k. Issue Start \<notin> set (others e k)) \<longrightarrow>
      stop_event (sleep e s d) \<and> workout_loop e s intervals = (Returned, s)) \<and>
   ((\<forall>k. \<forall>c\<in>set (others e k). \<not> is_issue c) \<longrightarrow>
      stop_event (sleep e s d) = stop_event s \<and>
      stop_event (snd (workout_loop e s intervals)) = stop_event s)"
proof -
  have "\<not> stop_event (init q)"
    by (simp add: init_def)
  moreover have "stop_event (pause e s)" "stop_event (stop e s)" "\<not> stop_event (start e s)"
    by (simp_all add: pause_def stop_def start_def write_command_fields)
  moreover have "stop_event (snd (set_speed e s v)) = stop_event s"
    using issue_flag [of e s "SetSpeed v"] by simp
  moreover have "stop_event (snd (notification_handler s data)) = stop_event s"
    "stop_event (snd (subscribe e s)) = stop_event s"
    by (simp_all add: notification_handler_def subscribe_def)
  moreover have "stop_event (write_command e s cmd) = stop_event s"
    by (simp add: write_command_fields)
  moreover have "c = Issue Start" if "stop_event s" "\<not> stop_event (snd (run_call e s c))"
    using that set_flag_stays by blast
  moreover have "stop_event (sleep e s d) \<and> workout_loop e s intervals = (Returned, s)"
    if "stop_event s" "\<forall>k. Issue Start \<notin> set (others e k)"
    using that by (simp add: sleep_keeps_flag workout_loop_stopped)
  moreover have "stop_event (sleep e s d) = stop_event s \<and>
      stop_event (snd (workout_loop e s intervals)) = stop_event s"
    if "\<forall>k. \<forall>c\<in>set (others e k). \<not> is_issue c"
    using that by (simp add: quiet_sleep quiet_loop_flag)
  ultimately show ?thesis by blast
qed

text \<open>
  After \<^verbatim>\<open>stop\<close> the flag is set and \<^verbatim>\<open>start\<close> clears it; with only
  notifications arriving, a wait and the loop leave it set.
\<close>

theorem cancellation_flag_witness:
  "stop_event (stop \<lparr>write_raises = (\<lambda>k. False), start_notify_raises = False,
       others = (\<lambda>k. [Notification []])\<rparr> (init [])) \<and>
   \<not> stop_event (snd (run_call \<lparr>write_raises = (\<lambda>k. False), start_notify_raises = False,
       others = (\<lambda>k. [Notification []])\<rparr>
     (stop \<lparr>write_raises = (\<lambda>k. False), start_notify_raises = False,
       others = (\<lambda>k. [Notification []])\<rparr> (init [])) (Issue Start))) \<and>
   stop_event (sleep \<lparr>write_raises = (\<lambda>k. False), start_notify_raises = False,
       others = (\<lambda>k. [Notification []])\<rparr>
     (stop \<lparr>write_raises = (\<lambda>k. False), start_notify_raises = False,
       others = (\<lambda>k. [Notification []])\<rparr> (init [])) 5) \<and>
   stop_event (snd (workout_loop \<lparr>write_raises = (\<lambda>k. False), start_notify_raises = False,
       others = (\<lambda>k. [Notification []])\<rparr>
     (stop \<lparr>write_raises = (\<lambda>k. False), start_notify_raises = False,
       others = (\<lambda>k. [Notification []])\<rparr> (init [])) [(2, 10)]))"
proof -
  let ?e = "\<lparr>write_raises = (\<lambda>k. False), start_notify_raises = False,
       others = (\<lambda>k. [Notification []])\<rparr>"
  let ?s = "stop ?e (init [])"
  have set: "stop_event ?s"
    by (simp add: stop_def write_command_def)
  have reset: "\<not> stop_event (snd (run_call ?e ?s (Issue Start)))"
    by (simp add: start_def write_command_def)
  have no_start: "\<forall>k. Issue Start \<notin> set (others ?e k)"
    by simp
  have quiet: "\<forall>k. \<forall>c\<in>set (others ?e k). \<not> is_issue c"
    by simp
  note inst = cancellation_flag
    [where e = ?e and s = ?s and c = "Issue Start" and d = 5 and intervals = "[(2, 10)]"]
  from inst set no_start have "stop_event (sleep ?e ?s 5)"
    by blast
  moreover from inst set quiet have "stop_event (snd (workout_loop ?e ?s [(2, 10)]))"
    by blast
  ultimately show ?thesis
    using set reset by blast
qed

subsection \<open>Waits and the clock\<close>











subsection \<open>Write failures\<close>

lemma no_console_fields:
  assumes "no_console s = no_console t"
  shows "stop_event s = stop_event t" and "telemetry_queue s = telemetry_queue t"
    and "subscribed s = subscribed t" and "trace s = trace t"
    and "tick s = tick t" and "clock s = clock t"
proof -
  have "stop_event (no_console s) = stop_event (no_console t)"
    "telemetry_queue (no_console s) = telemetry_queue (no_console t)"
    "subscribed (no_console s) = subscribed (no_console t)"
    "trace (no_console s) = trace (no_console t)"
    "tick (no_console s) = tick (no_console t)"
    "clock (no_console s) = clock (no_console t)"
    using assms by simp_all
  then show "stop_event s = stop_event t" and "telemetry_queue s = telemetry_queue t"
    and "subscribed s = subscribed t" and "trace s = trace t"
    and "tick s = tick t" and "clock s = clock t"
    by (simp_all add: no_console_def)
qed

lemma no_console_eqI:
  assumes "stop_event s = stop_event t" "telemetry_queue s = telemetry_queue t"
    "subscribed s = subscribed t" "trace s = trace t" "tick s = tick t" "clock s = clock t"
  shows "no_console s = no_console t"
  using assms by (simp add: no_console_def)

lemma write_command_console:
  assumes "no_console s = no_console t"
  shows "no_console (write_command e s c) = no_console (write_command e' t c)"
  using no_console_fields [OF assms]
  by (intro no_console_eqI) (simp_all add: write_command_def Let_def)

lemma start_console:
  assumes "no_console s = no_console t"
  shows "no_console (start e s) = no_console (start e' t)"
  unfolding start_def
  using no_console_fields [OF assms]
  by (intro write_command_console no_console_eqI) simp_all

lemma pause_console:
  assumes "no_console s = no_console t"
  shows "no_console (pause e s) = no_console (pause e' t)"
  unfolding pause_def
  using no_console_fields [OF assms]
  by (intro write_command_console no_console_eqI) simp_all

lemma stop_console:
  assumes "no_console s = no_console t"
  shows "no_console (stop e s) = no_console (stop e' t)"
  unfolding stop_def
  using no_console_fields [OF assms]
  by (intro write_command_console no_console_eqI) simp_all

lemma set_speed_console:
  assumes "no_console s = no_console t"
  shows "fst (set_speed e s v) = fst (set_speed e' t v) \<and>
         no_console (snd (set_speed e s v)) = no_console (snd (set_speed e' t v))"
  using assms write_command_console [OF assms]
  by (simp add: set_speed_def split: sum.splits)

lemma run_call_console:
  assumes "no_console s = no_console t" "start_notify_raises e' = start_notify_raises e"
  shows "no_console (snd (run_call e s c)) = no_console (snd (run_call e' t c))"
proof (cases c)
  case (Issue cmd)
  then show ?thesis
    using assms(1) by (cases cmd)
      (simp_all add: start_console pause_console stop_console set_speed_console)
next
  case (Notification data)
  then show ?thesis
    using no_console_fields [OF assms(1)]
    by (simp add: notification_handler_def) (intro no_console_eqI, simp_all)
next
  case Subscribe
  then show ?thesis
    using no_console_fields [OF assms(1)] assms(1,2)
    by (simp add: subscribe_def) (intro impI no_console_eqI, simp_all)
qed

lemma calls_console:
  assumes "start_notify_raises e' = start_notify_raises e"
  shows "no_console s = no_console t \<Longrightarrow>
     no_console (foldl (\<lambda>s' c. snd (run_call e s' c)) s cs) =
     no_console (foldl (\<lambda>s' c. snd (run_call e' s' c)) t cs)"
proof (induction cs arbitrary: s t)
  case Nil
  then show ?case by simp
next
  case (Cons c cs)
  from Cons.prems assms
  have "no_console (snd (run_call e s c)) = no_console (snd (run_call e' t c))"
    by (rule run_call_console)
  from Cons.IH [OF this] show ?case by simp
qed

lemma suspended_console:
  assumes "no_console s = no_console t" "start_notify_raises e' = start_notify_raises e"
    "others e' = others e"
  shows "no_console (suspended e k s) = no_console (suspended e' k t)"
  using calls_console [OF assms(2,1)] assms(3) by (simp add: suspended_def)

lemma sleep_console:
  assumes "no_console s = no_console t" "start_notify_raises e' = start_notify_raises e"
    "others e' = others e"
  shows "no_console (sleep e s d) = no_console (sleep e' t d)"
proof -
  let ?s1 = "s\<lparr>trace := trace s @ [(clock s, Sleep d)], tick := Suc (tick s)\<rparr>"
  let ?t1 = "t\<lparr>trace := trace t @ [(clock t, Sleep d)], tick := Suc (tick t)\<rparr>"
  have "no_console ?s1 = no_console ?t1"
    using no_console_fields [OF assms(1)] by (intro no_console_eqI) simp_all
  from suspended_console [OF this assms(2,3)]
  have eq: "no_console (suspended e (tick s) ?s1) = no_console (suspended e' (tick t) ?t1)"
    using no_console_fields(5) [OF assms(1)] by simp
  show ?thesis
    unfolding sleep_def Let_def
    using no_console_fields [OF eq] by (intro no_console_eqI) simp_all
qed

lemma workout_loop_console:
  assumes "start_notify_raises e' = start_notify_raises e" "others e' = others e"
  shows "no_console s = no_console t \<Longrightarrow>
     fst (workout_loop e s intervals) = fst (workout_loop e' t intervals) \<and>
     no_console (snd (workout_loop e s intervals)) =
       no_console (snd (workout_loop e' t intervals))"
proof (induction intervals arbitrary: s t)
  case Nil
  then show ?case by simp
next
  case (Cons iv intervals)
  obtain v d where iv: "iv = (v, d)" by (cases iv)
  note flag = no_console_fields(1) [OF Cons.prems]
  note ticks = no_console_fields(5) [OF Cons.prems]
  show ?case
  proof (cases "stop_event s")
    case True
    then show ?thesis using flag Cons.prems by (simp add: iv)
  next
    case False
    obtain r s1 where s1: "set_speed e s v = (r, s1)" by (cases "set_speed e s v")
    obtain r' t1 where t1: "set_speed e' t v = (r', t1)" by (cases "set_speed e' t v")
    from set_speed_console [OF Cons.prems, where e = e and e' = e' and v = v] s1 t1
    have r: "r' = r" and st: "no_console s1 = no_console t1" by simp_all
    show ?thesis
    proof (cases r)
      case Returned
      have "no_console (sleep e (suspended e (tick s) s1) d) =
          no_console (sleep e' (suspended e' (tick t) t1) d)"
        using suspended_console [OF st assms, where k = "tick s"] ticks
        by (intro sleep_console assms) simp
      from Cons.IH [OF this] show ?thesis
        using False flag s1 t1 r Returned by (simp add: iv)
    next
      case (Raised err)
      then show ?thesis
        using False flag s1 t1 r st by (simp add: iv)
    qed
  qed
qed

lemma start_workout_console:
  assumes "no_console s = no_console t" "start_notify_raises e' = start_notify_raises e"
    "others e' = others e"
  shows "fst (start_workout e s intervals) = fst (start_workout e' t intervals) \<and>
     no_console (snd (start_workout e s intervals)) =
       no_console (snd (start_workout e' t intervals))"
proof -
  let ?s2 = "sleep e (suspended e (tick s) (start e s)) 5"
  let ?t2 = "sleep e' (suspended e' (tick t) (start e' t)) 5"
  have "no_console (suspended e (tick s) (start e s)) =
      no_console (suspended e' (tick t) (start e' t))"
    using suspended_console [OF start_console [OF assms(1), where e = e and e' = e'] assms(2,3),
        where k = "tick s"]
      no_console_fields(5) [OF assms(1)] by simp
  then have two: "no_console ?s2 = no_console ?t2"
    by (intro sleep_console assms)
  obtain r s3 where s3: "workout_loop e ?s2 intervals = (r, s3)"
    by (cases "workout_loop e ?s2 intervals")
  obtain r' t3 where t3: "workout_loop e' ?t2 intervals = (r', t3)"
    by (cases "workout_loop e' ?t2 intervals")
  from workout_loop_console [OF assms(2,3) two, of intervals] s3 t3
  have r: "r' = r" and three: "no_console s3 = no_console t3" by simp_all
  have "no_console (suspended e (tick s3) (pause e s3)) =
      no_console (suspended e' (tick t3) (pause e' t3))"
    using suspended_console [OF pause_console [OF three, where e = e and e' = e'] assms(2,3),
        where k = "tick s3"]
      no_console_fields(5) [OF three] by simp
  then show ?thesis
    using s3 t3 r three by (cases r) (simp_all add: start_workout_def Let_def)
qed

lemma acknowledging_fields:
  "others (acknowledging e) = others e"
  "start_notify_raises (acknowledging e) = start_notify_raises e"
  "write_raises (acknowledging e) k = False"
  by (simp_all add: acknowledging_def)

text \<open>
  C9 (amended). A write failure is local to the failing command. It is reported: a
  line is printed, and \<^verbatim>\<open>_write_command\<close> changes nothing else, the
  cancellation flag in particular. After a command the flag is what the command makes
  it, whether or not its write failed: set by pause and stop, cleared by start,
  unchanged by set_speed. A failed \<^verbatim>\<open>set_speed\<close> in the workout is not fatal: the
  loop sleeps for the interval's duration and goes on with the next interval. No write
  failure changes the outcome of \<^verbatim>\<open>start_workout\<close> or anything of the state it
  ends in except the printed lines.
\<close>

theorem write_failure_is_local:
  "(write_raises e (tick s) \<longrightarrow>
      write_command e s cmd =
        (write_command (acknowledging e) s cmd)\<lparr>console := console s @ [Failed_to_write cmd]\<rparr>) \<and>
   stop_event (write_command e s cmd) = stop_event s \<and>
   stop_event (snd (issue e s c)) =
     (case c of Start \<Rightarrow> False | Pause \<Rightarrow> True | Stop \<Rightarrow> True | SetSpeed w \<Rightarrow> stop_event s) \<and>
   (\<not> stop_event s \<and> 0 \<le> py_int (v * 100) \<and> py_int (v * 100) \<le> 65535 \<and>
    write_raises e (tick s) \<longrightarrow>
      fst (set_speed e s v) = Returned \<and>
      workout_loop e s ((v, d) # rest) =
        workout_loop e (sleep e (suspended e (tick s) (snd (set_speed e s v))) d) rest) \<and>
   fst (start_workout e s intervals) = fst (start_workout (acknowledging e) s intervals) \<and>
   no_console (snd (start_workout e s intervals)) =
     no_console (snd (start_workout (acknowledging e) s intervals))"
proof -
  have report: "write_command e s cmd =
      (write_command (acknowledging e) s cmd)\<lparr>console := console s @ [Failed_to_write cmd]\<rparr>"
    if "write_raises e (tick s)"
    using that by (simp add: write_command_def Let_def acknowledging_def)
  have flag: "stop_event (write_command e s cmd) = stop_event s"
    by (simp add: write_command_fields)
  have loop: "fst (set_speed e s v) = Returned \<and>
      workout_loop e s ((v, d) # rest) =
        workout_loop e (sleep e (suspended e (tick s) (snd (set_speed e s v))) d) rest"
    if "\<not> stop_event s" "0 \<le> py_int (v * 100)" "py_int (v * 100) \<le> 65535"
    using that by (simp add: set_speed_def speed_command_in_range)
  have run: "fst (start_workout e s intervals) = fst (start_workout (acknowledging e) s intervals) \<and>
      no_console (snd (start_workout e s intervals)) =
        no_console (snd (start_workout (acknowledging e) s intervals))"
    by (rule start_workout_console) (simp_all add: acknowledging_fields)
  from report flag issue_flag [of e s c] loop run show ?thesis by blast
qed

text \<open>Every write fails: a Start write, and a workout loop over one interval.\<close>

theorem write_failure_is_local_witness:
  "write_raises \<lparr>write_raises = (\<lambda>k. True), start_notify_raises = False, others = (\<lambda>k. [])\<rparr>
     (tick (init [])) \<and>
   \<not> stop_event (init []) \<and> 0 \<le> py_int (2 * 100) \<and> py_int (2 * 100) \<le> 65535 \<and>
   write_command \<lparr>write_raises = (\<lambda>k. True), start_notify_raises = False, others = (\<lambda>k. [])\<rparr>
     (init []) [0x07] =
   \<lparr>stop_event = False, telemetry_queue = [], subscribed = False,
     trace = [(0, Write [0x07])], console = [Failed_to_write [0x07]], tick = 1, clock = 0\<rparr> \<and>
   workout_loop \<lparr>write_raises = (\<lambda>k. True), start_notify_raises = False, others = (\<lambda>k. [])\<rparr>
     (init []) [(2, 10)] =
   (Returned,
    \<lparr>stop_event = False, telemetry_queue = [], subscribed = False,
      trace = [(0, Write [0x02, 0xC8, 0x00]), (0, Sleep 10)],
      console = [Failed_to_write [0x02, 0xC8, 0x00]], tick = 2, clock = 10\<rparr>)"
proof -
  let ?e = "\<lparr>write_raises = (\<lambda>k. True), start_notify_raises = False, others = (\<lambda>k. [])\<rparr>"
  have fails: "write_raises ?e (tick (init []))" by simp
  have go: "\<not> stop_event (init [])" by (simp add: init_def)
  have range: "0 \<le> py_int (2 * 100)" "py_int (2 * 100) \<le> 65535" by (simp_all add: py_int_def)
  have ack: "(write_command (acknowledging ?e) (init []) [0x07])
      \<lparr>console := console (init []) @ [Failed_to_write [0x07]]\<rparr> =
    \<lparr>stop_event = False, telemetry_queue = [], subscribed = False,
     trace = [(0, Write [0x07])], console = [Failed_to_write [0x07]], tick = 1, clock = 0\<rparr>"
    by code_simp
  have rest: "workout_loop ?e (sleep ?e (suspended ?e (tick (init [])) (snd (set_speed ?e (init []) 2))) 10) [] =
   (Returned,
    \<lparr>stop_event = False, telemetry_queue = [], subscribed = False,
      trace = [(0, Write [0x02, 0xC8, 0x00]), (0, Sleep 10)],
      console = [Failed_to_write [0x02, 0xC8, 0x00]], tick = 2, clock = 10\<rparr>)"
    by code_simp
  note inst = write_failure_is_local
    [where e = ?e and s = "init []" and cmd = "[0x07]" and v = 2 and d = 10 and rest = "[]"]
  from inst fails have "write_command ?e (init []) [0x07] =
      (write_command (acknowledging ?e) (init []) [0x07])
        \<lparr>console := console (init []) @ [Failed_to_write [0x07]]\<rparr>"
    by blast
  moreover from inst fails go range have "workout_loop ?e (init []) [(2, 10)] =
      workout_loop ?e (sleep ?e (suspended ?e (tick (init [])) (snd (set_speed ?e (init []) 2))) 10) []"
    by blast
  ultimately show ?thesis
    using fails go range by (simp only: ack rest simp_thms)
qed

text \<open>
  C9 as stated leaves the flag unchanged when the failing command is not pause or stop.
  Here every write fails; \<^verbatim>\<open>stop\<close> has set the flag, and \<^verbatim>\<open>start\<close>, whose
  write fails, clears it.
\<close>

theorem write_failure_counterexample:
  "stop_event (stop \<lparr>write_raises = (\<lambda>k. True), start_notify_raises = False, others = (\<lambda>k. [])\<rparr>
      (init [])) \<and>
   start \<lparr>write_raises = (\<lambda>k. True), start_notify_raises = False, others = (\<lambda>k. [])\<rparr>
     (stop \<lparr>write_raises = (\<lambda>k. True), start_notify_raises = False, others = (\<lambda>k. [])\<rparr>
        (init [])) =
   \<lparr>stop_event = False, telemetry_queue = [], subscribed = False,
     trace = [(0, Write [0x08, 0x01]), (0, Write [0x07])],
     console = [Failed_to_write [0x08, 0x01], Failed_to_write [0x07]], tick = 2, clock = 0\<rparr>"
  by code_simp

end
